theory Spec2Isabelle
  imports Complex_Main
begin

section \<open>Python values, exceptions and dictionaries\<close>

text \<open>
  The program is one Python class, \<open>RouteServerInteraction\<close> (bgp.py). Its state is the
  nested dictionary \<open>self.route_servers\<close>; everything else it handles is a value decoded
  from JSON. A decoded value is one of Python's \<open>None\<close>, \<open>bool\<close>, \<open>int\<close>, \<open>float\<close>,
  \<open>str\<close>, \<open>list\<close> and \<open>dict\<close>. A float is kept by its exact (rational) value, which is
  what Python compares when a float meets an int; the non-finite floats are left out.
  A \<open>dict\<close> is an association list in insertion order, the order of \<open>.items()\<close>.
\<close>

datatype json =
    JNull
  | JBool bool
  | JInt int
  | JFloat rat
  | JStr string
  | JArr "json list"
  | JObj "(string \<times> json) list"

text \<open>
  The exceptions that can travel through the class. \<open>ConnectionError\<close> and
  \<open>MissingSchema\<close> are those of \<open>requests.exceptions\<close>; \<open>OtherRequestError\<close> stands for
  every other exception \<open>requests.get\<close> can raise (a read timeout, too many redirects).
\<close>

datatype py_exc =
    ConnectionError
  | JSONDecodeError
  | MissingSchema
  | OtherRequestError
  | KeyError
  | TypeError
  | AttributeError
  | UnboundLocalError

text \<open>\<open>d[k] = v\<close> on a dictionary with string keys: a key already there keeps its place.\<close>

fun setitem :: "string \<Rightarrow> 'v \<Rightarrow> (string \<times> 'v) list \<Rightarrow> (string \<times> 'v) list" where
  "setitem k v [] = [(k, v)]"
| "setitem k v ((k', v') # d) = (if k' = k then (k, v) # d else (k', v') # setitem k v d)"

text \<open>\<open>d.get(k)\<close> on a decoded value: \<open>None\<close> for a missing key, and only a dict has \<open>get\<close>.\<close>

fun py_get :: "json \<Rightarrow> string \<Rightarrow> py_exc + json" where
  "py_get (JObj d) k = Inr (case map_of d k of None \<Rightarrow> JNull | Some v \<Rightarrow> v)"
| "py_get _ k = Inl AttributeError"

text \<open>\<open>d[k]\<close> on a decoded value, for a string \<open>k\<close>.\<close>

fun py_getitem :: "json \<Rightarrow> string \<Rightarrow> py_exc + json" where
  "py_getitem (JObj d) k = (case map_of d k of None \<Rightarrow> Inl KeyError | Some v \<Rightarrow> Inr v)"
| "py_getitem _ k = Inl TypeError"

text \<open>\<open>d.items()\<close> on a decoded value.\<close>

fun py_items :: "json \<Rightarrow> py_exc + (string \<times> json) list" where
  "py_items (JObj d) = Inr d"
| "py_items _ = Inl AttributeError"

text \<open>\<open>v == n\<close> for a decoded value \<open>v\<close> and an int \<open>n\<close>: Python compares numbers by
  value across \<open>bool\<close>, \<open>int\<close> and \<open>float\<close>, and nothing else equals an int.\<close>

fun py_eq_int :: "json \<Rightarrow> int \<Rightarrow> bool" where
  "py_eq_int (JInt m) n = (m = n)"
| "py_eq_int (JBool b) n = ((if b then 1 else 0) = n)"
| "py_eq_int (JFloat r) n = (r = of_int n)"
| "py_eq_int _ n = False"

section \<open>Reading and printing an int\<close>

text \<open>
  \<open>int(item)\<close> for a string of ASCII characters: blanks around, an optional sign, then
  decimal digits, where single underscores may stand between digits. Anything else
  raises \<open>ValueError\<close>, here \<open>None\<close>. (The limit recent interpreters put on the number of
  digits is not modelled.)
\<close>

definition py_isspace :: "char \<Rightarrow> bool" where
  "py_isspace c = (c \<in> set [CHR '' '', CHR 0x09, CHR 0x0A, CHR 0x0B, CHR 0x0C, CHR 0x0D])"

definition py_isdigit :: "char \<Rightarrow> bool" where
  "py_isdigit c = ((48::nat) \<le> of_char c \<and> of_char c \<le> (57::nat))"

definition digit_val :: "char \<Rightarrow> nat" where
  "digit_val c = of_char c - 48"

fun more_digits :: "string \<Rightarrow> nat \<Rightarrow> nat option" where
  "more_digits [] acc = Some acc"
| "more_digits (c # cs) acc =
     (if py_isdigit c then more_digits cs (10 * acc + digit_val c)
      else if c = CHR ''_'' then
        (case cs of
           [] \<Rightarrow> None
         | d # ds \<Rightarrow> if py_isdigit d then more_digits ds (10 * acc + digit_val d) else None)
      else None)"

fun digits :: "string \<Rightarrow> nat option" where
  "digits [] = None"
| "digits (c # cs) = (if py_isdigit c then more_digits cs (digit_val c) else None)"

definition py_strip :: "string \<Rightarrow> string" where
  "py_strip s = rev (dropWhile py_isspace (rev (dropWhile py_isspace s)))"

definition py_int :: "string \<Rightarrow> int option" where
  "py_int s =
     (case py_strip s of
        [] \<Rightarrow> None
      | c # cs \<Rightarrow>
          if c = CHR ''-'' then map_option (\<lambda>n. - int n) (digits cs)
          else if c = CHR ''+'' then map_option int (digits cs)
          else map_option int (digits (c # cs)))"

text \<open>\<open>str(n)\<close>, as the f-string \<open>f'AS{asn}'\<close> prints an int.\<close>

fun str_nat :: "nat \<Rightarrow> string" where
  "str_nat n =
     (if n < 10 then [char_of (48 + n)]
      else str_nat (n div 10) @ [char_of (48 + n mod 10)])"

definition py_str :: "int \<Rightarrow> string" where
  "py_str n = (if n < 0 then CHR ''-'' # str_nat (nat (- n)) else str_nat (nat n))"

section \<open>The directory of route servers\<close>

text \<open>
  One entry of \<open>self.route_servers[loc][rs]\<close>: the key \<open>'url'\<close> is always there (its
  value is \<open>None\<close> when the environment variable is unset); \<open>'data'\<close> and \<open>'error'\<close> are
  there once a refresh has stored them (\<open>None\<close> is the missing key).
\<close>

record rs_entry =
  url :: "string option"
  data :: "json option"
  error :: "bool option"

type_synonym rs_dict = "(string \<times> rs_entry) list"
type_synonym route_servers = "(string \<times> rs_dict) list"

text \<open>
  What a method leaves behind: its result (\<open>Inl\<close> the exception that left it),
  \<open>self.route_servers\<close> afterwards, and the arguments of the calls of \<open>requests.get\<close>
  it made, in order.
\<close>

type_synonym 'a run = "(py_exc + 'a) \<times> route_servers \<times> string option list"

definition fresh :: "string option \<Rightarrow> rs_entry" where
  "fresh u = \<lparr>url = u, data = None, error = None\<rparr>"

text \<open>The dictionary \<open>__init__\<close> builds, from \<open>os.getenv\<close>.\<close>

definition configured :: "(string \<Rightarrow> string option) \<Rightarrow> route_servers" where
  "configured getenv =
     [(''SYD'', [(''rs1'', fresh (getenv ''SYD_RS1'')), (''rs2'', fresh (getenv ''SYD_RS2''))]),
      (''MEL'', [(''rs1'', fresh (getenv ''MEL_RS1'')), (''rs2'', fresh (getenv ''MEL_RS2''))]),
      (''ADL'', [(''rs1'', fresh (getenv ''ADL_RS1'')), (''rs2'', fresh (getenv ''ADL_RS2''))]),
      (''BNE'', [(''rs1'', fresh (getenv ''BNE_RS1'')), (''rs2'', fresh (getenv ''BNE_RS2''))]),
      (''PER'', [(''rs1'', fresh (getenv ''PER_RS1'')), (''rs2'', fresh (getenv ''PER_RS2''))]),
      (''DRW'', [(''rs1'', fresh (getenv ''DRW_RS1''))]),
      (''HBA'', [(''rs1'', fresh (getenv ''HBA_RS1''))])]"

section \<open>Fetching: \<open>_load_bird_data\<close>\<close>

text \<open>
  The network is a parameter: what the GET sent for endpoint \<open>(loc, rs)\<close> to its URL
  meets during one refresh, either an exception of \<open>requests.get\<close> or a response with a
  status code and a body that decodes as JSON or does not. With no URL (\<open>None\<close>)
  \<open>requests.get\<close> sends nothing and raises \<open>MissingSchema\<close>.
\<close>

datatype body = Json json | NotJson

datatype fetched = Raises py_exc | Response nat body

type_synonym network = "string \<Rightarrow> string \<Rightarrow> string \<Rightarrow> fetched"

definition requests_get :: "network \<Rightarrow> string \<Rightarrow> string \<Rightarrow> string option \<Rightarrow> fetched" where
  "requests_get net loc rs u = (case u of None \<Rightarrow> Raises MissingSchema | Some a \<Rightarrow> net loc rs a)"

text \<open>\<open>.json()\<close> of what came back; the status code is not looked at.\<close>

fun response_json :: "fetched \<Rightarrow> py_exc + json" where
  "response_json (Raises e) = Inl e"
| "response_json (Response status (Json j)) = Inr j"
| "response_json (Response status NotJson) = Inl JSONDecodeError"

text \<open>The body of the inner loop: the \<open>try\<close> with its one \<open>except\<close> clause.\<close>

definition load_endpoint :: "network \<Rightarrow> string \<Rightarrow> string \<Rightarrow> rs_entry \<Rightarrow> py_exc + rs_entry" where
  "load_endpoint net loc rs rsd =
     (case response_json (requests_get net loc rs (url rsd)) of
        Inr j \<Rightarrow> Inr (rsd\<lparr>data := Some j\<rparr>)
      | Inl e \<Rightarrow>
          if e = ConnectionError \<or> e = JSONDecodeError then Inr (rsd\<lparr>error := Some True\<rparr>)
          else Inl e)"

text \<open>\<open>for rs, rsd in loc_data.items()\<close>: an exception that is not caught stops the loop
  where it stands, with the entries before it already updated.\<close>

fun load_rs_dict ::
  "network \<Rightarrow> string \<Rightarrow> rs_dict \<Rightarrow> py_exc option \<times> rs_dict \<times> string option list" where
  "load_rs_dict net loc [] = (None, [], [])"
| "load_rs_dict net loc ((rs, rsd) # rest) =
     (case load_endpoint net loc rs rsd of
        Inl e \<Rightarrow> (Some e, (rs, rsd) # rest, [url rsd])
      | Inr rsd' \<Rightarrow>
          (case load_rs_dict net loc rest of
             (r, rest', sent) \<Rightarrow> (r, (rs, rsd') # rest', url rsd # sent)))"

text \<open>\<open>for loc, loc_data in self.route_servers.items()\<close>.\<close>

fun load_locations ::
  "network \<Rightarrow> route_servers \<Rightarrow> py_exc option \<times> route_servers \<times> string option list" where
  "load_locations net [] = (None, [], [])"
| "load_locations net ((loc, loc_data) # rest) =
     (case load_rs_dict net loc loc_data of
        (Some e, loc_data', sent) \<Rightarrow> (Some e, (loc, loc_data') # rest, sent)
      | (None, loc_data', sent) \<Rightarrow>
          (case load_locations net rest of
             (r, rest', sent') \<Rightarrow> (r, (loc, loc_data') # rest', sent @ sent')))"

definition load_bird_data :: "network \<Rightarrow> route_servers \<Rightarrow> route_servers run" where
  "load_bird_data net servers =
     (case load_locations net servers of
        (None, servers', sent) \<Rightarrow> (Inr servers', servers', sent)
      | (Some e, servers', sent) \<Rightarrow> (Inl e, servers', sent))"

definition get_responses :: "network \<Rightarrow> route_servers \<Rightarrow> route_servers run" where
  "get_responses net servers = load_bird_data net servers"

text \<open>\<open>__init__\<close>: build the dictionary, then load once.\<close>

definition init :: "(string \<Rightarrow> string option) \<Rightarrow> network \<Rightarrow> route_servers run" where
  "init getenv net = get_responses net (configured getenv)"

section \<open>Looking an ASN up: \<open>check_asn\<close>\<close>

text \<open>One value of the nested dictionary \<open>check_asn\<close> returns.\<close>

record peer =
  asn :: int
  name :: json
  state :: json

type_synonym matches = "(string \<times> (string \<times> peer) list) list"

text \<open>
  The two guarded stores of the innermost loop, for a session that matched:
  \<open>response[location] = {route_server: {...}}\<close> when the location is new, then
  \<open>response[location][route_server] = {...}\<close> when the route server is new there.
\<close>

definition record_match :: "string \<Rightarrow> string \<Rightarrow> peer \<Rightarrow> matches \<Rightarrow> py_exc + matches" where
  "record_match location route_server p response =
     (let response1 =
            (if map_of response location = None
             then setitem location [(route_server, p)] response
             else response)
      in case map_of response1 location of
           None \<Rightarrow> Inl KeyError
         | Some here \<Rightarrow>
             if map_of here route_server = None
             then Inr (setitem location (setitem route_server p here) response1)
             else Inr response1)"

text \<open>\<open>for asn, asn_data in route_server_data['data']['protocols'].items()\<close>.\<close>

fun scan_sessions ::
  "int \<Rightarrow> string \<Rightarrow> string \<Rightarrow> (string \<times> json) list \<Rightarrow> matches \<Rightarrow> py_exc + matches" where
  "scan_sessions checked_asn location route_server [] response = Inr response"
| "scan_sessions checked_asn location route_server ((k, asn_data) # rest) response =
     (case py_get asn_data ''neighbor_as'' of
        Inl e \<Rightarrow> Inl e
      | Inr neighbor \<Rightarrow>
          if py_eq_int neighbor checked_asn then
            (case py_get asn_data ''description'' of
               Inl e \<Rightarrow> Inl e
             | Inr d \<Rightarrow>
                 (case py_get asn_data ''state'' of
                    Inl e \<Rightarrow> Inl e
                  | Inr st \<Rightarrow>
                      (case record_match location route_server
                              \<lparr>asn = checked_asn, name = d, state = st\<rparr> response of
                         Inl e \<Rightarrow> Inl e
                       | Inr response' \<Rightarrow>
                           scan_sessions checked_asn location route_server rest response')))
          else scan_sessions checked_asn location route_server rest response)"

text \<open>\<open>route_server_data['data']['protocols'].items()\<close>.\<close>

definition protocols_items :: "rs_entry \<Rightarrow> py_exc + (string \<times> json) list" where
  "protocols_items rsd =
     (case data rsd of
        None \<Rightarrow> Inl KeyError
      | Some d \<Rightarrow>
          (case py_getitem d ''protocols'' of
             Inl e \<Rightarrow> Inl e
           | Inr p \<Rightarrow> py_items p))"

text \<open>\<open>for route_server, route_server_data in location_data.items()\<close>, with the
  \<open>continue\<close> for an entry that carries an \<open>'error'\<close> key.\<close>

fun scan_rs_dict :: "int \<Rightarrow> string \<Rightarrow> rs_dict \<Rightarrow> matches \<Rightarrow> py_exc + matches" where
  "scan_rs_dict checked_asn location [] response = Inr response"
| "scan_rs_dict checked_asn location ((route_server, rsd) # rest) response =
     (if error rsd \<noteq> None then scan_rs_dict checked_asn location rest response
      else
        (case protocols_items rsd of
           Inl e \<Rightarrow> Inl e
         | Inr sessions \<Rightarrow>
             (case scan_sessions checked_asn location route_server sessions response of
                Inl e \<Rightarrow> Inl e
              | Inr response' \<Rightarrow> scan_rs_dict checked_asn location rest response')))"

text \<open>\<open>for location, location_data in data.items()\<close>.\<close>

fun scan_locations :: "int \<Rightarrow> route_servers \<Rightarrow> matches \<Rightarrow> py_exc + matches" where
  "scan_locations checked_asn [] response = Inr response"
| "scan_locations checked_asn ((location, location_data) # rest) response =
     (case scan_rs_dict checked_asn location location_data response of
        Inl e \<Rightarrow> Inl e
      | Inr response' \<Rightarrow> scan_locations checked_asn rest response')"

definition check_asn :: "network \<Rightarrow> int \<Rightarrow> route_servers \<Rightarrow> matches run" where
  "check_asn net checked_asn servers =
     (case get_responses net servers of
        (Inl e, servers', sent) \<Rightarrow> (Inl e, servers', sent)
      | (Inr loaded, servers', sent) \<Rightarrow> (scan_locations checked_asn loaded [], servers', sent))"

section \<open>Rendering: \<open>parse\<close>\<close>

text \<open>
  The \<open>PrettyTable\<close> is kept as its field names and its rows; how it prints is the
  library's business. \<open>route_server_data\<close> is the variable of the inner loop: it holds
  the last value the loop saw, and no value before the first pass.
\<close>

record pretty_table =
  field_names :: "string list"
  rows :: "(string \<times> string \<times> json) list"

datatype message = Text string | Fenced pretty_table

fun parse_rs_dict ::
  "string \<Rightarrow> (string \<times> peer) list \<Rightarrow> pretty_table \<times> peer option \<Rightarrow> pretty_table \<times> peer option" where
  "parse_rs_dict location [] acc = acc"
| "parse_rs_dict location ((route_server, route_server_data) # rest) (table, last_seen) =
     parse_rs_dict location rest
       (table\<lparr>rows := rows table @ [(location, route_server, state route_server_data)]\<rparr>,
        Some route_server_data)"

fun parse_locations :: "matches \<Rightarrow> pretty_table \<times> peer option \<Rightarrow> pretty_table \<times> peer option" where
  "parse_locations [] acc = acc"
| "parse_locations ((location, location_data) # rest) acc =
     parse_locations rest (parse_rs_dict location location_data acc)"

definition parse :: "matches \<Rightarrow> py_exc + message \<times> json" where
  "parse found =
     (case parse_locations found
             (\<lparr>field_names = [''City'', ''Route Server'', ''BGP State''], rows = []\<rparr>, None) of
        (table, None) \<Rightarrow> Inl UnboundLocalError
      | (table, Some route_server_data) \<Rightarrow> Inr (Fenced table, name route_server_data))"

section \<open>The entry point: \<open>on_message\<close>\<close>

text \<open>\<open>_int_convert\<close> returns the int, or \<open>False\<close> when \<open>int\<close> raised \<open>ValueError\<close>.\<close>

datatype converted = Converted int | Failed

definition int_convert :: "string \<Rightarrow> converted" where
  "int_convert item = (case py_int item of Some n \<Rightarrow> Converted n | None \<Rightarrow> Failed)"

text \<open>\<open>not asn\<close> on what \<open>_int_convert\<close> returned: \<open>False\<close> and \<open>0\<close> are the falsy ones.\<close>

fun py_not :: "converted \<Rightarrow> bool" where
  "py_not Failed = True"
| "py_not (Converted n) = (n = 0)"

text \<open>The argument of \<open>on_message\<close>: a \<open>str\<close> or an \<open>int\<close>. For a \<open>str\<close> the method
  converts it and returns at once when \<open>not asn\<close> holds; an \<open>int\<close> goes straight on.\<close>

datatype asn_arg = AsnStr string | AsnInt int

text \<open>\<open>on_message\<close> from the line \<open># Cheeky\<close> on, where \<open>asn\<close> is an int.\<close>

definition lookup :: "network \<Rightarrow> int \<Rightarrow> route_servers \<Rightarrow> (message \<times> json) run" where
  "lookup net n servers =
     (if n = 1221 then
        (Inr (Text ''The day Telstra peer on EdgeIX Route Servers is the day Joe shaves his beard..'',
              JStr ''No Chance''), servers, [])
      else
        (case check_asn net n servers of
           (Inl e, servers', sent) \<Rightarrow> (Inl e, servers', sent)
         | (Inr found, servers', sent) \<Rightarrow>
             if length found = 0 then
               (Inr (Text (''AS'' @ py_str n @
                       '' is not present on any Route Servers.. perhaps they should email peering@edgeix.net?''),
                     JStr ''Response''), servers', sent)
             else (parse found, servers', sent)))"

definition on_message :: "network \<Rightarrow> asn_arg \<Rightarrow> route_servers \<Rightarrow> (message \<times> json) run" where
  "on_message net arg servers =
     (case arg of
        AsnStr s \<Rightarrow>
          (case int_convert s of
             Failed \<Rightarrow> (Inr (Text ''Please enter a valid ASN!'', JStr ''Response''), servers, [])
           | Converted n \<Rightarrow>
               if py_not (Converted n)
               then (Inr (Text ''Please enter a valid ASN!'', JStr ''Response''), servers, [])
               else lookup net n servers)
      | AsnInt n \<Rightarrow> lookup net n servers)"

section \<open>The derived views: \<open>asns\<close> and \<open>ips\<close>\<close>





















section \<open>Vocabulary of the properties\<close>

text \<open>The three plain-text answers of \<open>on_message\<close>, each with its caption.\<close>

definition invalid_input :: "message \<times> json" where
  "invalid_input = (Text ''Please enter a valid ASN!'', JStr ''Response'')"

definition not_found :: "int \<Rightarrow> message \<times> json" where
  "not_found n =
     (Text (''AS'' @ py_str n @
        '' is not present on any Route Servers.. perhaps they should email peering@edgeix.net?''),
      JStr ''Response'')"

definition no_chance :: "message \<times> json" where
  "no_chance =
     (Text ''The day Telstra peer on EdgeIX Route Servers is the day Joe shaves his beard..'',
      JStr ''No Chance'')"

text \<open>The rows of a match dictionary in the order \<open>parse\<close> walks it: locations in
  insertion order, and the route servers of each in insertion order.\<close>

definition flat_rows :: "matches \<Rightarrow> (string \<times> string \<times> peer) list" where
  "flat_rows found = concat (map (\<lambda>(location, d). map (Pair location) d) found)"

text \<open>The table row of a match: City, Route Server, BGP State.\<close>

definition table_row :: "string \<times> string \<times> peer \<Rightarrow> string \<times> string \<times> json" where
  "table_row r = (fst r, fst (snd r), state (snd (snd r)))"

text \<open>The entry of endpoint \<open>(loc, rs)\<close>: \<open>servers[loc][rs]\<close>, when both keys are there.\<close>

definition entry_at :: "route_servers \<Rightarrow> string \<Rightarrow> string \<Rightarrow> rs_entry option" where
  "entry_at servers loc rs = (case map_of servers loc of None \<Rightarrow> None | Some d \<Rightarrow> map_of d rs)"


fun escapes :: "fetched \<Rightarrow> bool" where
  "escapes (Raises e) = (e \<noteq> ConnectionError \<and> e \<noteq> JSONDecodeError)"
| "escapes (Response status b) = False"

text \<open>What one pass of the loop stores in an entry whose fetch does not escape.\<close>

definition refreshed :: "network \<Rightarrow> string \<Rightarrow> string \<Rightarrow> rs_entry \<Rightarrow> rs_entry" where
  "refreshed net loc rs rsd =
     (case requests_get net loc rs (url rsd) of
        Response status (Json j) \<Rightarrow> rsd\<lparr>data := Some j\<rparr>
      | _ \<Rightarrow> rsd\<lparr>error := Some True\<rparr>)"

text \<open>No fetch of a refresh escapes.\<close>

definition all_handled :: "network \<Rightarrow> route_servers \<Rightarrow> bool" where
  "all_handled net servers =
     (\<forall>(loc, d) \<in> set servers. \<forall>(rs, rsd) \<in> set d.
        \<not> escapes (requests_get net loc rs (url rsd)))"

text \<open>The URLs of all endpoints, in iteration order.\<close>

definition all_urls :: "route_servers \<Rightarrow> string option list" where
  "all_urls servers = concat (map (\<lambda>(loc, d). map (\<lambda>(rs, rsd). url rsd) d) servers)"

text \<open>
  Vocabulary for the scan. A session's field, as \<open>asn_data.get\<close> reads it; the sessions
  of an entry, \<open>rsd['data']['protocols'].items()\<close>; and an entry is well shaped when that
  expression evaluates and every session is a dict.
\<close>

definition session_field :: "json \<Rightarrow> string \<Rightarrow> json" where
  "session_field s k = (case py_get s k of Inr v \<Rightarrow> v | Inl e \<Rightarrow> JNull)"

definition sessions_of :: "rs_entry \<Rightarrow> (string \<times> json) list" where
  "sessions_of rsd = (case protocols_items rsd of Inr p \<Rightarrow> p | Inl e \<Rightarrow> [])"

fun is_dict :: "json \<Rightarrow> bool" where
  "is_dict (JObj d) = True"
| "is_dict _ = False"

definition well_shaped :: "rs_entry \<Rightarrow> bool" where
  "well_shaped rsd =
     (case protocols_items rsd of Inr p \<Rightarrow> list_all (\<lambda>(k, s). is_dict s) p | Inl e \<Rightarrow> False)"

text \<open>Every entry the scan of \<open>check_asn\<close> reads (one without \<open>'error'\<close>) is well shaped.\<close>

definition scannable :: "route_servers \<Rightarrow> bool" where
  "scannable servers =
     (\<forall>(loc, d) \<in> set servers. \<forall>(rs, rsd) \<in> set d. error rsd = None \<longrightarrow> well_shaped rsd)"

text \<open>The association lists stand for dictionaries: no key twice.\<close>

definition dict_keys :: "route_servers \<Rightarrow> bool" where
  "dict_keys servers =
     (distinct (map fst servers) \<and> (\<forall>(loc, d) \<in> set servers. distinct (map fst d)))"

text \<open>The value \<open>check_asn\<close> stores for a session, and the first session of an entry
  whose \<open>neighbor_as\<close> equals the ASN, as that value.\<close>

definition peer_of :: "int \<Rightarrow> json \<Rightarrow> peer" where
  "peer_of a s =
     \<lparr>asn = a, name = session_field s ''description'', state = session_field s ''state''\<rparr>"

definition first_match :: "int \<Rightarrow> rs_entry \<Rightarrow> peer option" where
  "first_match a rsd =
     (case find (\<lambda>(k, s). py_eq_int (session_field s ''neighbor_as'') a) (sessions_of rsd) of
        None \<Rightarrow> None
      | Some (k, s) \<Rightarrow> Some (peer_of a s))"

text \<open>The match dictionary in closed form: per location the route servers without
  \<open>'error'\<close> whose table has a match, and only the locations with at least one.\<close>

definition matched_rs :: "int \<Rightarrow> rs_dict \<Rightarrow> (string \<times> peer) list" where
  "matched_rs a d =
     concat (map (\<lambda>(rs, rsd).
        if error rsd \<noteq> None then []
        else (case first_match a rsd of None \<Rightarrow> [] | Some p \<Rightarrow> [(rs, p)])) d)"

definition matched :: "int \<Rightarrow> route_servers \<Rightarrow> matches" where
  "matched a servers =
     concat (map (\<lambda>(loc, d). if matched_rs a d = [] then [] else [(loc, matched_rs a d)]) servers)"

text \<open>The match dictionary while location \<open>loc\<close> is scanned: the locations before it,
  and the rows of \<open>loc\<close> so far (no key \<open>loc\<close> while there is none).\<close>

definition pending :: "matches \<Rightarrow> string \<Rightarrow> (string \<times> peer) list \<Rightarrow> matches" where
  "pending prev loc cur = (if cur = [] then prev else prev @ [(loc, cur)])"



text \<open>The rows a match dictionary holds for the pair \<open>(loc, rs)\<close>.\<close>

definition rows_for :: "matches \<Rightarrow> string \<Rightarrow> string \<Rightarrow> peer list" where
  "rows_for found loc rs =
     map (\<lambda>r. snd (snd r)) (filter (\<lambda>r. fst r = loc \<and> fst (snd r) = rs) (flat_rows found))"









section \<open>The scenario of the specification\<close>

text \<open>
  Every variable of the environment is set; SYD/rs1 answers with one session of
  AS64500, and every other endpoint refuses the connection.
\<close>

definition example_session :: json where
  "example_session =
     JObj [(''neighbor_as'', JInt 64500), (''description'', JStr ''ExampleNet''),
           (''state'', JStr ''Established''), (''neighbor_address'', JStr ''203.0.113.1'')]"

definition example_table :: json where
  "example_table = JObj [(''protocols'', JObj [(''s1'', example_session)])]"

definition example_net :: network where
  "example_net loc rs u =
     (if loc = ''SYD'' \<and> rs = ''rs1'' then Response 200 (Json example_table)
      else Raises ConnectionError)"

definition example_env :: "string \<Rightarrow> string option" where
  "example_env v = Some (''http://'' @ v)"

definition example_servers :: route_servers where
  "example_servers = configured example_env"

text \<open>\<open>self.route_servers\<close> once the object has been built in the scenario.\<close>

definition built :: route_servers where
  "built = fst (snd (init example_env example_net))"

text \<open>Other networks: every endpoint refuses the connection; every endpoint answers
  500 with a JSON error page; SYD/rs1 answers with a body that is not JSON while SYD/rs2
  serves the table of the scenario.\<close>

definition down_net :: network where
  "down_net loc rs u = Raises ConnectionError"

definition error_page :: json where
  "error_page = JObj [(''message'', JStr ''Internal Server Error'')]"

definition error_page_net :: network where
  "error_page_net loc rs u = Response 500 (Json error_page)"

definition isolation_net :: network where
  "isolation_net loc rs u =
     (if loc = ''SYD'' \<and> rs = ''rs1'' then Response 200 NotJson
      else if loc = ''SYD'' \<and> rs = ''rs2'' then Response 200 (Json example_table)
      else Raises ConnectionError)"

text \<open>An environment in which \<open>SYD_RS2\<close> is not set.\<close>

definition unset_env :: "string \<Rightarrow> string option" where
  "unset_env v = (if v = ''SYD_RS2'' then None else Some (''http://'' @ v))"








section \<open>Evaluating the model\<close>

lemmas int_eval = py_int_def py_strip_def py_isspace_def py_isdigit_def digit_val_def

lemmas load_eval = built_def init_def example_servers_def example_env_def configured_def
  fresh_def get_responses_def load_bird_data_def load_endpoint_def requests_get_def
  example_net_def

lemmas scan_eval = protocols_items_def record_match_def example_table_def example_session_def

section \<open>\<open>on_message\<close>: the input and the three answers\<close>

lemma on_message_str:
  "on_message net (AsnStr s) servers =
     (case py_int s of
        None \<Rightarrow> (Inr invalid_input, servers, [])
      | Some n \<Rightarrow> if n = 0 then (Inr invalid_input, servers, []) else lookup net n servers)"
  by (simp add: on_message_def int_convert_def invalid_input_def split: option.split)

lemma on_message_int: "on_message net (AsnInt n) servers = lookup net n servers"
  by (simp add: on_message_def)

lemma lookup_eq:
  "lookup net n servers =
     (if n = 1221 then (Inr no_chance, servers, [])
      else (case fst (get_responses net servers) of
              Inl e \<Rightarrow> Inl e
            | Inr loaded \<Rightarrow>
                (case scan_locations n loaded [] of
                   Inl e \<Rightarrow> Inl e
                 | Inr found \<Rightarrow> if found = [] then Inr (not_found n) else parse found),
            snd (get_responses net servers)))"
  by (simp add: lookup_def check_asn_def no_chance_def not_found_def
           split: prod.split sum.split)

section \<open>\<open>parse\<close>: the table and the caption\<close>

lemma parse_rs_dict_eq:
  "parse_rs_dict location d (t, seen) =
     (t\<lparr>rows := rows t @ map (table_row \<circ> Pair location) d\<rparr>,
      if d = [] then seen else Some (snd (last d)))"
proof (induction d arbitrary: t seen)
  case Nil
  show ?case by simp
next
  case (Cons x d)
  obtain r p where x: "x = (r, p)" by (cases x)
  show ?case unfolding x by (simp add: Cons.IH table_row_def)
qed

lemma flat_rows_Cons:
  "flat_rows ((location, d) # rest) = map (Pair location) d @ flat_rows rest"
  by (simp add: flat_rows_def)

lemma parse_locations_eq:
  "parse_locations found (t, seen) =
     (t\<lparr>rows := rows t @ map table_row (flat_rows found)\<rparr>,
      if flat_rows found = [] then seen else Some (snd (snd (last (flat_rows found)))))"
proof (induction found arbitrary: t seen)
  case Nil
  show ?case by (simp add: flat_rows_def)
next
  case (Cons x found)
  obtain location d where x: "x = (location, d)" by (cases x)
  have l: "d \<noteq> [] \<Longrightarrow> snd (snd (last (map (Pair location) d))) = snd (last d)"
    by (simp add: last_map)
  show ?case unfolding x
    by (simp add: parse_rs_dict_eq Cons.IH flat_rows_Cons l)
qed

lemma parse_eq:
  "parse found =
     (if flat_rows found = [] then Inl UnboundLocalError
      else Inr (Fenced \<lparr>field_names = [''City'', ''Route Server'', ''BGP State''],
                       rows = map table_row (flat_rows found)\<rparr>,
                name (snd (snd (last (flat_rows found))))))"
  by (simp add: parse_def parse_locations_eq)

text \<open>
  C6. For a match dictionary with at least one row, \<open>parse\<close> returns the table whose
  rows are the matched (location, route server) pairs in iteration order, each as City,
  Route Server, BGP State, and the caption is the \<open>name\<close> (the session's description)
  of the last row in that order.
\<close>

theorem parse_rows_and_caption:
  assumes "flat_rows found \<noteq> []"
  shows "parse found =
           Inr (Fenced \<lparr>field_names = [''City'', ''Route Server'', ''BGP State''],
                        rows = map table_row (flat_rows found)\<rparr>,
                name (snd (snd (last (flat_rows found)))))"
  using assms by (simp add: parse_eq)

theorem parse_rows_and_caption_witness:
  "flat_rows [(''SYD'', [(''rs1'', \<lparr>asn = 64500, name = JStr ''Foo'', state = JStr ''Established''\<rparr>)]),
              (''MEL'', [(''rs2'', \<lparr>asn = 64500, name = JStr ''Bar'', state = JStr ''Idle''\<rparr>)])] \<noteq> []
   \<and> parse [(''SYD'', [(''rs1'', \<lparr>asn = 64500, name = JStr ''Foo'', state = JStr ''Established''\<rparr>)]),
             (''MEL'', [(''rs2'', \<lparr>asn = 64500, name = JStr ''Bar'', state = JStr ''Idle''\<rparr>)])]
       = Inr (Fenced \<lparr>field_names = [''City'', ''Route Server'', ''BGP State''],
                      rows = [(''SYD'', ''rs1'', JStr ''Established''), (''MEL'', ''rs2'', JStr ''Idle'')]\<rparr>,
              JStr ''Bar'')"
proof -
  let ?found = "[(''SYD'', [(''rs1'', \<lparr>asn = 64500, name = JStr ''Foo'', state = JStr ''Established''\<rparr>)]),
                 (''MEL'', [(''rs2'', \<lparr>asn = 64500, name = JStr ''Bar'', state = JStr ''Idle''\<rparr>)])]"
  have h: "flat_rows ?found \<noteq> []" by (simp add: flat_rows_def)
  show ?thesis
    using h parse_rows_and_caption [OF h] by (simp add: flat_rows_def table_row_def)
qed

section \<open>\<open>on_message\<close> on text\<close>






lemma on_message_str_nonzero:
  "py_int s = Some n \<Longrightarrow> n \<noteq> 0 \<Longrightarrow> on_message net (AsnStr s) servers = on_message net (AsnInt n) servers"
  by (simp add: on_message_str on_message_int)

text \<open>
  C5 does not hold on the code for the text \<open>0\<close>: \<open>not asn\<close> is true of the int 0 as it is
  of \<open>False\<close>, so the text is answered as invalid input, while the int 0 is looked up and
  answered as not found.
\<close>

theorem text_zero_differs_from_int_zero:
  "py_int ''0'' = Some 0
   \<and> fst (on_message example_net (AsnStr ''0'') built) = Inr invalid_input
   \<and> fst (on_message example_net (AsnInt 0) built) = Inr (not_found 0)
   \<and> invalid_input \<noteq> not_found 0"
proof -
  have "fst (on_message example_net (AsnInt 0) built) = Inr (not_found 0)"
    by (simp add: on_message_int lookup_eq load_eval scan_eval)
  moreover have "invalid_input \<noteq> not_found 0"
    by (simp add: invalid_input_def not_found_def)
  ultimately show ?thesis
    by (simp add: on_message_str int_eval)
qed

section \<open>\<open>_load_bird_data\<close>: what a refresh stores\<close>

lemmas nets_eval = down_net_def error_page_net_def isolation_net_def unset_env_def

lemma load_endpoint_handled:
  assumes "\<not> escapes (requests_get net loc rs (url rsd))"
  shows "load_endpoint net loc rs rsd = Inr (refreshed net loc rs rsd)"
proof (cases "requests_get net loc rs (url rsd)")
  case (Raises e)
  with assms show ?thesis by (auto simp: load_endpoint_def refreshed_def)
next
  case (Response status b)
  then show ?thesis by (cases b) (simp_all add: load_endpoint_def refreshed_def)
qed

lemma load_rs_dict_handled:
  assumes "\<forall>(rs, rsd) \<in> set d. \<not> escapes (requests_get net loc rs (url rsd))"
  shows "load_rs_dict net loc d =
           (None, map (\<lambda>(rs, rsd). (rs, refreshed net loc rs rsd)) d, map (\<lambda>(rs, rsd). url rsd) d)"
  using assms
proof (induction d)
  case Nil
  show ?case by simp
next
  case (Cons x d)
  obtain rs rsd where x: "x = (rs, rsd)" by (cases x)
  from Cons.prems have h: "\<not> escapes (requests_get net loc rs (url rsd))"
    and t: "\<forall>(rs, rsd) \<in> set d. \<not> escapes (requests_get net loc rs (url rsd))"
    by (auto simp: x)
  show ?case by (simp add: x load_endpoint_handled [OF h] Cons.IH [OF t])
qed

lemma load_locations_handled:
  assumes "all_handled net servers"
  shows "load_locations net servers =
           (None,
            map (\<lambda>(loc, d). (loc, map (\<lambda>(rs, rsd). (rs, refreshed net loc rs rsd)) d)) servers,
            all_urls servers)"
  using assms
proof (induction servers)
  case Nil
  show ?case by (simp add: all_urls_def)
next
  case (Cons x servers)
  obtain loc d where x: "x = (loc, d)" by (cases x)
  from Cons.prems have h: "\<forall>(rs, rsd) \<in> set d. \<not> escapes (requests_get net loc rs (url rsd))"
    and t: "all_handled net servers"
    by (auto simp: x all_handled_def)
  show ?case using Cons.IH [OF t]
    by (simp add: x load_rs_dict_handled [OF h] all_urls_def)
qed






text \<open>
  What a refresh does to one entry. After the first refresh, the one \<open>__init__\<close> runs on
  the fresh dictionary, every entry holds exactly one of \<open>'data'\<close> and \<open>'error'\<close>; but an
  \<open>'error'\<close> once stored stays through every later refresh.
\<close>

lemma entry_at_refreshed:
  "entry_at (map (\<lambda>(loc, d). (loc, map (\<lambda>(rs, rsd). (rs, refreshed net loc rs rsd)) d)) servers) loc rs
     = map_option (refreshed net loc rs) (entry_at servers loc rs)"
proof -
  have inner: "map_of (map (\<lambda>(rs, rsd). (rs, refreshed net l rs rsd)) d) rs
                 = map_option (refreshed net l rs) (map_of d rs)" for l d
    by (induction d) auto
  have outer: "map_of (map (\<lambda>(loc, d). (loc, map (\<lambda>(rs, rsd). (rs, refreshed net loc rs rsd)) d)) servers) loc
                 = map_option (\<lambda>d. map (\<lambda>(rs, rsd). (rs, refreshed net loc rs rsd)) d) (map_of servers loc)"
    by (induction servers) auto
  show ?thesis
    by (simp add: entry_at_def outer inner split: option.splits)
qed

lemma refresh_entry:
  assumes "all_handled net servers"
  shows "entry_at (fst (snd (get_responses net servers))) loc rs
           = map_option (refreshed net loc rs) (entry_at servers loc rs)"
  by (simp add: get_responses_def load_bird_data_def load_locations_handled [OF assms]
        entry_at_refreshed)

lemma refreshed_exactly_one:
  assumes "data rsd = None" and "error rsd = None"
  shows "(data (refreshed net loc rs rsd) = None) \<noteq> (error (refreshed net loc rs rsd) = None)"
  using assms by (auto simp: refreshed_def split: fetched.splits body.splits)

lemma first_refresh_exactly_one:
  assumes "all_handled net (configured getenv)"
    and "entry_at (fst (snd (init getenv net))) loc rs = Some rsd"
  shows "(data rsd = None) \<noteq> (error rsd = None)"
proof -
  from assms(2) obtain e where e: "entry_at (configured getenv) loc rs = Some e"
    and r: "rsd = refreshed net loc rs e"
    by (auto simp: init_def refresh_entry [OF assms(1)])
  from e have "data e = None \<and> error e = None"
    by (auto simp: entry_at_def configured_def fresh_def split: if_splits)
  with r show ?thesis by (simp add: refreshed_exactly_one)
qed

lemma refreshed_keeps_flag:
  "error rsd \<noteq> None \<Longrightarrow> error (refreshed net loc rs rsd) \<noteq> None"
  by (auto simp: refreshed_def split: fetched.splits body.splits)

text \<open>
  C1 does not hold on the code. \<open>_load_bird_data\<close> only ever adds keys to an entry: a
  success stores \<open>'data'\<close> and leaves an \<open>'error'\<close> of an earlier refresh, a failure stores
  \<open>'error'\<close> and leaves the \<open>'data'\<close> of an earlier refresh. So SYD/rs1, unreachable when
  the object was built and serving its table at the next refresh, carries both; after two
  good refreshes it carries the table alone, so the entry depends on the earlier refresh;
  and reachable first and unreachable next, it carries the old table beside the flag.
\<close>

theorem error_flag_outlives_recovery:
  "entry_at (fst (snd (get_responses example_net (fst (snd (init example_env down_net))))))
       ''SYD'' ''rs1''
     = Some \<lparr>url = Some ''http://SYD_RS1'', data = Some example_table, error = Some True\<rparr>
   \<and> entry_at (fst (snd (get_responses example_net (fst (snd (init example_env example_net))))))
       ''SYD'' ''rs1''
     = Some \<lparr>url = Some ''http://SYD_RS1'', data = Some example_table, error = None\<rparr>
   \<and> entry_at (fst (snd (get_responses down_net (fst (snd (init example_env example_net))))))
       ''SYD'' ''rs1''
     = Some \<lparr>url = Some ''http://SYD_RS1'', data = Some example_table, error = Some True\<rparr>"
  by (simp add: load_eval nets_eval entry_at_def)

text \<open>
  C9 does not hold on the code, by the same leftover flag. Every endpoint was unreachable
  when the object was built; at the lookup SYD/rs1 answers with a body that is not JSON and
  SYD/rs2 serves a table with AS64500. The refresh stores the table of SYD/rs2, but its
  entry still carries \<open>'error'\<close>, the scan skips it, and the answer is the not-found one.
\<close>

theorem healthy_endpoint_skipped_after_failure:
  "fst (on_message isolation_net (AsnInt 64500) (fst (snd (init example_env down_net))))
     = Inr (not_found 64500)
   \<and> entry_at (fst (snd (on_message isolation_net (AsnInt 64500)
                            (fst (snd (init example_env down_net))))))
       ''SYD'' ''rs2''
     = Some \<lparr>url = Some ''http://SYD_RS2'', data = Some example_table, error = Some True\<rparr>"
  by (simp add: on_message_int lookup_eq load_eval nets_eval scan_eval entry_at_def)

section \<open>\<open>check_asn\<close>: the scan in closed form\<close>

lemma setitem_absent: "map_of d k = None \<Longrightarrow> setitem k v d = d @ [(k, v)]"
  by (induction d) (auto split: if_splits)

lemma setitem_last: "map_of prev k = None \<Longrightarrow> setitem k v (prev @ [(k, w)]) = prev @ [(k, v)]"
  by (induction prev) (auto split: if_splits)

lemma map_of_last: "map_of prev k = None \<Longrightarrow> map_of (prev @ [(k, v)]) k = Some v"
  by (induction prev) (auto split: if_splits)

lemma record_match_pending:
  assumes "map_of prev loc = None"
  shows "record_match loc rs p (pending prev loc cur) =
           Inr (pending prev loc (if map_of cur rs = None then cur @ [(rs, p)] else cur))"
proof (cases "cur = []")
  case True
  with assms show ?thesis
    by (simp add: record_match_def pending_def setitem_absent map_of_last del: map_of_append)
next
  case False
  with assms show ?thesis
    by (auto simp add: record_match_def pending_def setitem_absent setitem_last map_of_last
             simp del: map_of_append)
qed

lemma py_get_dict: "is_dict s \<Longrightarrow> py_get s k = Inr (session_field s k)"
  by (cases s) (simp_all add: session_field_def)

lemma scan_sessions_pending:
  assumes "map_of prev loc = None" and "list_all (\<lambda>(k, s). is_dict s) ss"
  shows "scan_sessions a loc rs ss (pending prev loc cur) =
           Inr (pending prev loc
                  (if map_of cur rs = None
                   then (case find (\<lambda>(k, s). py_eq_int (session_field s ''neighbor_as'') a) ss of
                           None \<Rightarrow> cur
                         | Some (k, s) \<Rightarrow> cur @ [(rs, peer_of a s)])
                   else cur))"
  using assms(2)
proof (induction ss arbitrary: cur)
  case Nil
  show ?case by simp
next
  case (Cons x ss)
  obtain k s where x: "x = (k, s)" by (cases x)
  from Cons.prems have d: "is_dict s" and t: "list_all (\<lambda>(k, s). is_dict s) ss"
    by (simp_all add: x)
  show ?case
  proof (cases "py_eq_int (session_field s ''neighbor_as'') a")
    case True
    let ?cur = "if map_of cur rs = None then cur @ [(rs, peer_of a s)] else cur"
    have m: "map_of ?cur rs \<noteq> None" by (auto simp add: map_of_last simp del: map_of_append)
    have "scan_sessions a loc rs (x # ss) (pending prev loc cur)
            = scan_sessions a loc rs ss (pending prev loc ?cur)"
      using True
      by (simp add: x py_get_dict [OF d] record_match_pending [OF assms(1)] peer_of_def)
    also have "\<dots> = Inr (pending prev loc ?cur)"
      using m by (simp add: Cons.IH [OF t])
    finally show ?thesis using True by (simp add: x)
  next
    case False
    then show ?thesis
      by (simp add: x py_get_dict [OF d] Cons.IH [OF t])
  qed
qed

lemma well_shaped_items:
  assumes "well_shaped rsd"
  shows "protocols_items rsd = Inr (sessions_of rsd)"
    and "list_all (\<lambda>(k, s). is_dict s) (sessions_of rsd)"
  using assms by (auto simp: well_shaped_def sessions_of_def split: sum.splits)

lemma matched_rs_Cons:
  "matched_rs a ((rs, rsd) # d) =
     (if error rsd \<noteq> None then []
      else (case first_match a rsd of None \<Rightarrow> [] | Some p \<Rightarrow> [(rs, p)])) @ matched_rs a d"
  by (simp add: matched_rs_def)

lemma scan_rs_dict_pending:
  assumes "map_of prev loc = None"
    and "\<forall>(rs, rsd) \<in> set d. error rsd = None \<longrightarrow> well_shaped rsd"
    and "distinct (map fst d)"
    and "\<forall>rs \<in> fst ` set d. map_of cur rs = None"
  shows "scan_rs_dict a loc d (pending prev loc cur) = Inr (pending prev loc (cur @ matched_rs a d))"
  using assms(2-4)
proof (induction d arbitrary: cur)
  case Nil
  show ?case by (simp add: matched_rs_def)
next
  case (Cons x d)
  obtain rs rsd where x: "x = (rs, rsd)" by (cases x)
  from Cons.prems have shaped: "error rsd = None \<Longrightarrow> well_shaped rsd"
    and rest: "\<forall>(rs, rsd) \<in> set d. error rsd = None \<longrightarrow> well_shaped rsd"
    and dist: "distinct (map fst d)" and new: "rs \<notin> fst ` set d"
    and free: "map_of cur rs = None" and free': "\<forall>r \<in> fst ` set d. map_of cur r = None"
    by (auto simp: x)
  show ?case
  proof (cases "error rsd = None")
    case False
    then show ?thesis
      by (simp add: x matched_rs_Cons Cons.IH [OF rest dist free'])
  next
    case True
    let ?step = "case first_match a rsd of None \<Rightarrow> [] | Some p \<Rightarrow> [(rs, p)]"
    have keys: "\<forall>r \<in> fst ` set d. map_of (cur @ ?step) r = None"
      using free' new by (auto split: option.splits)
    have "scan_sessions a loc rs (sessions_of rsd) (pending prev loc cur)
            = Inr (pending prev loc (cur @ ?step))"
      using free
      by (simp add: scan_sessions_pending [OF assms(1) well_shaped_items(2) [OF shaped [OF True]]]
            first_match_def split: option.splits)
    then show ?thesis
      using True
      by (simp add: x matched_rs_Cons well_shaped_items(1) [OF shaped [OF True]]
            Cons.IH [OF rest dist keys])
  qed
qed

lemma matched_Cons:
  "matched a ((loc, d) # servers) = pending [] loc (matched_rs a d) @ matched a servers"
  by (simp add: matched_def pending_def)

lemma pending_append: "pending prev loc cur = prev @ pending [] loc cur"
  by (simp add: pending_def)

lemma scan_locations_matched:
  assumes "dict_keys servers" and "scannable servers"
    and "\<forall>loc \<in> fst ` set servers. map_of acc loc = None"
  shows "scan_locations a servers acc = Inr (acc @ matched a servers)"
  using assms
proof (induction servers arbitrary: acc)
  case Nil
  show ?case by (simp add: matched_def)
next
  case (Cons x servers)
  obtain loc d where x: "x = (loc, d)" by (cases x)
  from Cons.prems have free: "map_of acc loc = None"
    and shaped: "\<forall>(rs, rsd) \<in> set d. error rsd = None \<longrightarrow> well_shaped rsd"
    and dist: "distinct (map fst d)"
    and keys: "dict_keys servers" and scan: "scannable servers"
    and new: "loc \<notin> fst ` set servers"
    and free': "\<forall>l \<in> fst ` set servers. map_of acc l = None"
    by (auto simp: x dict_keys_def scannable_def)
  have step: "scan_rs_dict a loc d acc = Inr (pending acc loc (matched_rs a d))"
    using scan_rs_dict_pending [OF free shaped dist, of "[]" a] by (simp add: pending_def)
  have later: "\<forall>l \<in> fst ` set servers. map_of (pending acc loc (matched_rs a d)) l = None"
    using free' new by (auto simp: pending_def)
  show ?case
    using Cons.IH [OF keys scan later]
    by (simp add: x step matched_Cons pending_append [of acc])
qed

lemma scan_locations_eq:
  "dict_keys servers \<Longrightarrow> scannable servers \<Longrightarrow> scan_locations a servers [] = Inr (matched a servers)"
  using scan_locations_matched [of servers "[]" a] by simp

lemma flat_rows_matched_Cons:
  "flat_rows (matched a ((loc, d) # servers)) = map (Pair loc) (matched_rs a d) @ flat_rows (matched a servers)"
  by (simp add: matched_def flat_rows_def)

lemma rows_for_absent:
  "loc \<notin> fst ` set servers \<Longrightarrow> rows_for (matched a servers) loc rs = []"
proof (induction servers)
  case Nil
  show ?case by (simp add: matched_def flat_rows_def rows_for_def)
next
  case (Cons x servers)
  obtain l d where x: "x = (l, d)" by (cases x)
  from Cons.prems have "l \<noteq> loc" and "loc \<notin> fst ` set servers" by (auto simp: x)
  with Cons.IH show ?case
    by (simp add: x flat_rows_matched_Cons rows_for_def filter_map o_def)
qed

lemma rows_for_matched:
  "distinct (map fst servers) \<Longrightarrow>
   rows_for (matched a servers) loc rs =
     (case map_of servers loc of
        None \<Rightarrow> []
      | Some d \<Rightarrow> map snd (filter (\<lambda>r. fst r = rs) (matched_rs a d)))"
proof (induction servers)
  case Nil
  show ?case by (simp add: matched_def flat_rows_def rows_for_def)
next
  case (Cons x servers)
  obtain l d where x: "x = (l, d)" by (cases x)
  from Cons.prems have new: "l \<notin> fst ` set servers" and dist: "distinct (map fst servers)"
    by (auto simp: x)
  have split: "rows_for (matched a ((l, d) # servers)) loc rs =
          (if l = loc then map snd (filter (\<lambda>r. fst r = rs) (matched_rs a d)) else [])
          @ rows_for (matched a servers) loc rs"
    by (simp add: flat_rows_matched_Cons rows_for_def filter_map o_def)
  show ?case
  proof (cases "l = loc")
    case True
    with new have "rows_for (matched a servers) loc rs = []" by (simp add: rows_for_absent)
    with True show ?thesis unfolding x split by simp
  next
    case False
    with Cons.IH [OF dist] show ?thesis unfolding x split by simp
  qed
qed

lemma matched_rs_absent:
  "rs \<notin> fst ` set d \<Longrightarrow> filter (\<lambda>r. fst r = rs) (matched_rs a d) = []"
proof (induction d)
  case Nil
  show ?case by (simp add: matched_rs_def)
next
  case (Cons x d)
  obtain r rsd where x: "x = (r, rsd)" by (cases x)
  from Cons.prems have "r \<noteq> rs" and "rs \<notin> fst ` set d" by (auto simp: x)
  with Cons.IH show ?case
    by (simp add: x matched_rs_Cons split: option.splits)
qed

lemma matched_rs_rows:
  "distinct (map fst d) \<Longrightarrow>
   map snd (filter (\<lambda>r. fst r = rs) (matched_rs a d)) =
     (case map_of d rs of
        None \<Rightarrow> []
      | Some rsd \<Rightarrow>
          if error rsd \<noteq> None then []
          else (case first_match a rsd of None \<Rightarrow> [] | Some p \<Rightarrow> [p]))"
proof (induction d)
  case Nil
  show ?case by (simp add: matched_rs_def)
next
  case (Cons x d)
  obtain r rsd where x: "x = (r, rsd)" by (cases x)
  from Cons.prems have new: "r \<notin> fst ` set d" and dist: "distinct (map fst d)"
    by (auto simp: x)
  show ?case
  proof (cases "r = rs")
    case True
    with new have "filter (\<lambda>r. fst r = rs) (matched_rs a d) = []" by (simp add: matched_rs_absent)
    with True show ?thesis by (simp add: x matched_rs_Cons split: option.splits)
  next
    case False
    with Cons.IH [OF dist] show ?thesis by (simp add: x matched_rs_Cons split: option.splits)
  qed
qed




lemma rows_for_entry:
  assumes "dict_keys servers"
  shows "rows_for (matched a servers) loc rs =
     (case entry_at servers loc rs of
        None \<Rightarrow> []
      | Some rsd \<Rightarrow>
          if error rsd \<noteq> None then []
          else (case first_match a rsd of None \<Rightarrow> [] | Some p \<Rightarrow> [p]))"
proof (cases "map_of servers loc")
  case None
  with assms show ?thesis by (simp add: rows_for_matched dict_keys_def entry_at_def)
next
  case (Some d)
  then have "(loc, d) \<in> set servers" by (rule map_of_SomeD)
  with assms have "distinct (map fst d)" by (auto simp: dict_keys_def)
  with assms Some show ?thesis
    by (simp add: rows_for_matched dict_keys_def entry_at_def matched_rs_rows)
qed



text \<open>
  The leftover flag in general: an endpoint whose entry carries \<open>'error'\<close> before a lookup
  contributes no row to it, whatever its fetch returns during the lookup's refresh.
\<close>

lemma flagged_endpoint_contributes_nothing:
  assumes "all_handled net servers"
    and "dict_keys (fst (snd (get_responses net servers)))"
    and "scannable (fst (snd (get_responses net servers)))"
    and "entry_at servers loc rs = Some e" and "error e \<noteq> None"
  shows "fst (check_asn net a servers) = Inr (matched a (fst (snd (get_responses net servers))))"
    and "rows_for (matched a (fst (snd (get_responses net servers)))) loc rs = []"
proof -
  define S where
    "S = map (\<lambda>(loc, d). (loc, map (\<lambda>(rs, rsd). (rs, refreshed net loc rs rsd)) d)) servers"
  have g: "get_responses net servers = (Inr S, S, all_urls servers)"
    by (simp add: S_def get_responses_def load_bird_data_def load_locations_handled [OF assms(1)])
  then have L: "fst (snd (get_responses net servers)) = S" by simp
  from assms(2,3) have keys: "dict_keys S" and shaped: "scannable S" by (simp_all add: L)
  show "fst (check_asn net a servers) = Inr (matched a (fst (snd (get_responses net servers))))"
    unfolding L by (simp add: check_asn_def g scan_locations_eq [OF keys shaped])
  have "entry_at S loc rs = Some (refreshed net loc rs e)"
    using refresh_entry [OF assms(1), of loc rs] by (simp add: L assms(4))
  then show "rows_for (matched a (fst (snd (get_responses net servers)))) loc rs = []"
    unfolding L
    using refreshed_keeps_flag [OF assms(5), of net loc rs]
    by (auto simp: rows_for_entry [OF keys])
qed

section \<open>\<open>on_message\<close>: what can leave it\<close>















section \<open>The views \<open>asns\<close> and \<open>ips\<close>\<close>


































end
